theory Spec2Isabelle
  imports Complex_Main "HOL-Library.Word"
begin

section \<open>Numbers and vectors\<close>

text \<open>
  The converter \<^verbatim>\<open>gcode_to_stl_ultra.py\<close> computes with Python floats and numpy arrays of
  three floats. Floats are idealised here as real numbers, and a numpy array of shape (3,)
  is a triple. Arithmetic on real numbers is exact and every real number is finite, so the
  following behaviour of floats is outside this model: rounding, and with it a small term
  absorbed by a large one and a square that underflows to zero; the infinity that
  \<^verbatim>\<open>float\<close> returns for a number beyond the range of a double; NaN; and the
  \<^verbatim>\<open>OverflowError\<close> that \<^verbatim>\<open>**\<close> raises for a square beyond that range. The statements
  proved below about counts, indices, which fields a line sets and which segments are
  emitted do not rest on any of these. The width clamp, where NaN decides, is modelled a
  second time over the values of a float (\<open>actual_width_py\<close>).
\<close>

type_synonym vec3 = "real \<times> real \<times> real"

definition vadd :: "vec3 \<Rightarrow> vec3 \<Rightarrow> vec3" where
  "vadd a b = (case a of (ax, ay, az) \<Rightarrow> case b of (bx, by, bz) \<Rightarrow> (ax + bx, ay + by, az + bz))"

definition vsub :: "vec3 \<Rightarrow> vec3 \<Rightarrow> vec3" where
  "vsub a b = (case a of (ax, ay, az) \<Rightarrow> case b of (bx, by, bz) \<Rightarrow> (ax - bx, ay - by, az - bz))"

definition vscale :: "vec3 \<Rightarrow> real \<Rightarrow> vec3" where
  "vscale a k = (case a of (ax, ay, az) \<Rightarrow> (ax * k, ay * k, az * k))"

definition vdiv :: "vec3 \<Rightarrow> real \<Rightarrow> vec3" where
  "vdiv a k = (case a of (ax, ay, az) \<Rightarrow> (ax / k, ay / k, az / k))"

definition cross :: "vec3 \<Rightarrow> vec3 \<Rightarrow> vec3" where
  "cross a b = (case a of (ax, ay, az) \<Rightarrow> case b of (bx, by, bz) \<Rightarrow>
     (ay * bz - az * by, az * bx - ax * bz, ax * by - ay * bx))"

definition norm3 :: "vec3 \<Rightarrow> real" where
  "norm3 a = (case a of (ax, ay, az) \<Rightarrow> sqrt (ax\<^sup>2 + ay\<^sup>2 + az\<^sup>2))"

definition isfinite :: "real \<Rightarrow> bool" where
  \<comment> \<open>\<^verbatim>\<open>np.isfinite\<close>: every real number is finite; the values it rejects are outside the model\<close>
  "isfinite x = True"

definition isfinite_all :: "vec3 \<Rightarrow> bool" where
  "isfinite_all a = (case a of (ax, ay, az) \<Rightarrow> isfinite ax \<and> isfinite ay \<and> isfinite az)"


text \<open>The exceptions of Python that the modelled functions can meet, as values.\<close>

datatype error = ValueError | IndexError | StructError

definition ebind :: "error + 'a \<Rightarrow> ('a \<Rightarrow> error + 'b) \<Rightarrow> error + 'b" where
  \<comment> \<open>run the rest of a computation unless an exception was raised\<close>
  "ebind r f = (case r of Inl e \<Rightarrow> Inl e | Inr x \<Rightarrow> f x)"


section \<open>Strings and patterns\<close>

text \<open>
  The input file is the list of its lines. A character is a code point below 256; on these
  \<^verbatim>\<open>str.strip\<close> removes the twelve characters below, and \<^verbatim>\<open>str.lower\<close> adds 32 to the
  upper-case letters: 65 to 90, and 192 to 222 without 215.
\<close>

definition isspace :: "char \<Rightarrow> bool" where
  "isspace c = ((of_char c :: nat) \<in> {9, 10, 11, 12, 13, 28, 29, 30, 31, 32, 133, 160})"

definition strip :: "string \<Rightarrow> string" where
  "strip s = rev (dropWhile isspace (rev (dropWhile isspace s)))"

definition lower_char :: "char \<Rightarrow> char" where
  "lower_char c =
     (if 65 \<le> (of_char c :: nat) \<and> (of_char c :: nat) \<le> 90 \<or>
         192 \<le> (of_char c :: nat) \<and> (of_char c :: nat) \<le> 222 \<and> (of_char c :: nat) \<noteq> 215
      then char_of (of_char c + (32 :: nat)) else c)"

definition lower :: "string \<Rightarrow> string" where
  "lower s = map lower_char s"

fun startswith :: "string \<Rightarrow> string \<Rightarrow> bool" where
  "startswith s [] = True"
| "startswith [] (p # ps) = False"
| "startswith (c # s) (p # ps) = (c = p \<and> startswith s ps)"

fun contains :: "string \<Rightarrow> string \<Rightarrow> bool" where
  \<comment> \<open>\<^verbatim>\<open>needle in s\<close>\<close>
  "contains needle [] = (needle = [])"
| "contains needle (c # s) = (startswith (c # s) needle \<or> contains needle s)"

definition is_digit :: "char \<Rightarrow> bool" where
  "is_digit c = (48 \<le> (of_char c :: nat) \<and> (of_char c :: nat) \<le> 57)"

text \<open>
  The pattern \<^verbatim>\<open>[-]?[0-9]+\.?[0-9]*\<close> anchored at the head of a string: an optional
  minus sign, the longest run of digits, which must not be empty, then an optional point
  with the longest run of digits after it. The result is the matched text (group 1).
\<close>

definition match_number :: "string \<Rightarrow> string option" where
  "match_number s =
     (let sign = (case s of [] \<Rightarrow> [] | c # r \<Rightarrow> if c = CHR ''-'' then [c] else []);
          r = drop (length sign) s;
          ip = takeWhile is_digit r;
          r' = dropWhile is_digit r
      in if ip = [] then None
         else (case r' of [] \<Rightarrow> Some (sign @ ip)
               | c # r'' \<Rightarrow> if c = CHR ''.'' then Some (sign @ ip @ [c] @ takeWhile is_digit r'')
                            else Some (sign @ ip)))"

fun search_number :: "string \<Rightarrow> string option" where
  \<comment> \<open>\<^verbatim>\<open>re.search(r'([-]?[0-9]+\.?[0-9]*)', s)\<close>: the leftmost match\<close>
  "search_number [] = None"
| "search_number (c # s) =
     (case match_number (c # s) of Some t \<Rightarrow> Some t | None \<Rightarrow> search_number s)"

fun search_field :: "char \<Rightarrow> string \<Rightarrow> string option" where
  \<comment> \<open>\<^verbatim>\<open>re.search(r'X([-]?[0-9]+\.?[0-9]*)', s)\<close> for the letter given: the leftmost
      occurrence of the letter that a number follows\<close>
  "search_field a [] = None"
| "search_field a (c # s) =
     (if c = a then (case match_number s of Some t \<Rightarrow> Some t | None \<Rightarrow> search_field a s)
      else search_field a s)"

text \<open>
  \<^verbatim>\<open>float(t)\<close> on the texts the pattern can capture: sign, digits, and an optional point
  followed by digits. Python's \<^verbatim>\<open>float\<close> accepts more than this shape; the program never
  passes it anything else, so every other text stands for \<^verbatim>\<open>ValueError\<close> here. The result
  is the number the text denotes, where Python returns the nearest float.
\<close>

definition digit_val :: "char \<Rightarrow> nat" where
  "digit_val c = of_char c - 48"

definition digits_val :: "string \<Rightarrow> nat" where
  "digits_val ds = foldl (\<lambda>a c. 10 * a + digit_val c) 0 ds"

definition py_float :: "string \<Rightarrow> error + real" where
  "py_float s =
     (let neg = (case s of [] \<Rightarrow> False | c # r \<Rightarrow> c = CHR ''-'');
          r = (if neg then tl s else s);
          ip = takeWhile is_digit r;
          r' = dropWhile is_digit r;
          fp = (case r' of [] \<Rightarrow> [] | c # r'' \<Rightarrow> r'');
          ok = (case r' of [] \<Rightarrow> True | c # r'' \<Rightarrow> c = CHR ''.'' \<and> list_all is_digit r'');
          v = real (digits_val ip) + real (digits_val fp) / 10 ^ length fp
      in if ip = [] \<or> \<not> ok then Inl ValueError
         else Inr (if neg then - v else v))"

definition float_group :: "string option \<Rightarrow> error + real option" where
  \<comment> \<open>\<^verbatim>\<open>float(m.group(1)) if m else None\<close>\<close>
  "float_group m = (case m of None \<Rightarrow> Inr None
     | Some t \<Rightarrow> ebind (py_float t) (\<lambda>v. Inr (Some v)))"


section \<open>G-code segment extraction\<close>

record segment =
  seg_start :: vec3
  seg_end :: vec3
  width :: real
  height :: real
  extrusion_amount :: real

text \<open>The local variables of \<^verbatim>\<open>parse_gcode_to_segments\<close> that live across lines.\<close>

record parse_state =
  segments :: "segment list"
  current_z :: real
  last_x :: "real option"
  last_y :: "real option"
  last_z :: "real option"
  last_e :: real
  detected_layer_height :: real
  detected_extrusion_width :: real

definition scan_comment :: "nat \<Rightarrow> string \<Rightarrow> parse_state \<Rightarrow> error + parse_state" where
  \<comment> \<open>slicer settings in the comments of the first 100 lines\<close>
  "scan_comment line_num line st =
     (if line_num < 100 \<and> startswith line '';'' then
        ebind (if contains ''layer_height'' (lower line) \<or> contains ''layer height'' (lower line)
               then float_group (search_number line) else Inr None) (\<lambda>h.
        ebind (if contains ''extrusion_width'' (lower line) \<or> contains ''extrusion width'' (lower line)
               then float_group (search_number line) else Inr None) (\<lambda>w.
          Inr (st\<lparr>detected_layer_height :=
                    (case h of None \<Rightarrow> detected_layer_height st | Some v \<Rightarrow> v),
                  detected_extrusion_width :=
                    (case w of None \<Rightarrow> detected_extrusion_width st | Some v \<Rightarrow> v)\<rparr>)))
      else Inr st)"

definition update_z :: "real option \<Rightarrow> parse_state \<Rightarrow> parse_state" where
  \<comment> \<open>the body of \<^verbatim>\<open>if z_match:\<close>\<close>
  "update_z z st = (case z of None \<Rightarrow> st
     | Some new_z \<Rightarrow>
       (let st1 = (case last_z st of None \<Rightarrow> st
                   | Some lz \<Rightarrow>
                       if new_z > lz then
                         (let z_diff = new_z - lz
                          in if 0.1 \<le> z_diff \<and> z_diff \<le> 1.0
                             then st\<lparr>detected_layer_height := z_diff\<rparr> else st)
                       else st)
        in st1\<lparr>last_z := Some (current_z st1), current_z := new_z\<rparr>))"

definition actual_width :: "real \<Rightarrow> real \<Rightarrow> parse_state \<Rightarrow> real" where
  "actual_width amount segment_length st =
     (if segment_length > 0 then
        min (max (if detected_layer_height st > 0
                  then amount / (segment_length * detected_layer_height st)
                  else detected_extrusion_width st) 0.1) 2.0
      else detected_extrusion_width st)"

definition emit :: "real option \<Rightarrow> real option \<Rightarrow> bool \<Rightarrow> real \<Rightarrow> parse_state \<Rightarrow> parse_state" where
  \<comment> \<open>the extrusion test and the append, for the resolved \<open>x\<close>, \<open>y\<close>, \<open>e\<close> of the line; the
      squares are exact here, in the program \<^verbatim>\<open>**\<close> raises \<^verbatim>\<open>OverflowError\<close> for a move
      beyond about 1.3e154\<close>
  "emit x y e_matched e st =
     (let is_extruding = (e_matched \<and> e > last_e st)
      in case (x, y, last_x st, last_y st) of
           (Some xv, Some yv, Some lx, Some ly) \<Rightarrow>
             if is_extruding then
               (let amount = e - last_e st;
                    segment_length = sqrt ((xv - lx)\<^sup>2 + (yv - ly)\<^sup>2)
                in st\<lparr>segments := segments st @
                     [\<lparr>seg_start = (lx, ly, current_z st),
                       seg_end = (xv, yv, current_z st),
                       width = actual_width amount segment_length st,
                       height = detected_layer_height st,
                       extrusion_amount = amount\<rparr>]\<rparr>)
             else st
         | _ \<Rightarrow> st)"

definition motion :: "string \<Rightarrow> parse_state \<Rightarrow> error + parse_state" where
  \<comment> \<open>the body of \<^verbatim>\<open>if line.startswith('G1') or line.startswith('G0'):\<close>\<close>
  "motion line st =
     ebind (float_group (search_field CHR ''X'' line)) (\<lambda>xm.
     ebind (float_group (search_field CHR ''Y'' line)) (\<lambda>ym.
     ebind (float_group (search_field CHR ''E'' line)) (\<lambda>em.
     ebind (float_group (search_field CHR ''Z'' line)) (\<lambda>zm.
        (let x = (case xm of Some v \<Rightarrow> Some v | None \<Rightarrow> last_x st);
             y = (case ym of Some v \<Rightarrow> Some v | None \<Rightarrow> last_y st);
             e = (case em of Some v \<Rightarrow> v | None \<Rightarrow> last_e st);
             st1 = update_z zm st;
             st2 = emit x y (em \<noteq> None) e st1
         in Inr (st2\<lparr>last_x := x, last_y := y, last_e := e\<rparr>))))))"

definition process_line :: "nat \<Rightarrow> string \<Rightarrow> parse_state \<Rightarrow> error + parse_state" where
  \<comment> \<open>one turn of the loop over the lines of the file\<close>
  "process_line line_num raw st =
     (let line = strip raw
      in ebind (scan_comment line_num line st) (\<lambda>st1.
           if startswith line ''G1'' \<or> startswith line ''G0'' then motion line st1
           else Inr st1))"

fun parse_lines :: "nat \<Rightarrow> string list \<Rightarrow> parse_state \<Rightarrow> error + parse_state" where
  "parse_lines line_num [] st = Inr st"
| "parse_lines line_num (raw # rest) st =
     ebind (process_line line_num raw st) (\<lambda>st'. parse_lines (Suc line_num) rest st')"

definition init_state :: "real \<Rightarrow> real \<Rightarrow> parse_state" where
  "init_state default_layer_height default_extrusion_width =
     \<lparr>segments = [], current_z = 0, last_x = None, last_y = None, last_z = None, last_e = 0,
      detected_layer_height = default_layer_height,
      detected_extrusion_width = default_extrusion_width\<rparr>"

definition parse_gcode_to_segments ::
    "real \<Rightarrow> real \<Rightarrow> string list \<Rightarrow> error + (segment list \<times> real \<times> real)" where
  "parse_gcode_to_segments default_layer_height default_extrusion_width lines =
     ebind (parse_lines 0 lines (init_state default_layer_height default_extrusion_width))
       (\<lambda>st. Inr (segments st, detected_layer_height st, detected_extrusion_width st))"


text \<open>
  The width computation of source lines 72 to 77 once more, over the values a Python float
  can take: \<open>Finite r\<close> is a float of value \<open>r\<close>, and the infinities and NaN are values of
  their own. Comparisons with NaN are false, and \<^verbatim>\<open>max(a, b)\<close> and \<^verbatim>\<open>min(a, b)\<close> keep
  \<open>a\<close> unless \<open>b\<close> is greater, respectively smaller. The product and the quotient of
  floats round, so they are parameters \<open>fmul\<close> and \<open>fdiv\<close>; the segment length is a numpy
  float, whose quotient is an infinity or NaN where the division of Python's own floats
  would raise, so \<open>fdiv\<close> has no error. The literals 0.1 and 2.0 are read
  as the numbers they denote: no float lies between 1/10 and the float written 0.1, so
  every comparison comes out as in the program.
\<close>

datatype pyfloat = Finite real | PosInf | NegInf | NaN

fun py_lt :: "pyfloat \<Rightarrow> pyfloat \<Rightarrow> bool" where
  "py_lt NaN b = False"
| "py_lt a NaN = False"
| "py_lt (Finite a) (Finite b) = (a < b)"
| "py_lt (Finite a) PosInf = True"
| "py_lt (Finite a) NegInf = False"
| "py_lt PosInf b = False"
| "py_lt NegInf (Finite b) = True"
| "py_lt NegInf PosInf = True"
| "py_lt NegInf NegInf = False"

definition py_max :: "pyfloat \<Rightarrow> pyfloat \<Rightarrow> pyfloat" where
  "py_max a b = (if py_lt a b then b else a)"

definition py_min :: "pyfloat \<Rightarrow> pyfloat \<Rightarrow> pyfloat" where
  "py_min a b = (if py_lt b a then b else a)"

definition actual_width_py ::
    "(pyfloat \<Rightarrow> pyfloat \<Rightarrow> pyfloat) \<Rightarrow> (pyfloat \<Rightarrow> pyfloat \<Rightarrow> pyfloat) \<Rightarrow>
     pyfloat \<Rightarrow> pyfloat \<Rightarrow> pyfloat \<Rightarrow> pyfloat \<Rightarrow> pyfloat" where
  "actual_width_py fmul fdiv amount segment_length layer_height extrusion_width =
     (if py_lt (Finite 0) segment_length then
        py_min (py_max (if py_lt (Finite 0) layer_height
                        then fdiv amount (fmul segment_length layer_height)
                        else extrusion_width) (Finite 0.1)) (Finite 2.0)
      else extrusion_width)"

definition at_origin :: parse_state where
  \<comment> \<open>the state after the line \<^verbatim>\<open>G1 X0 Y0 E0\<close> of a file read with the default settings\<close>
  "at_origin = (init_state 0.2 0.4)\<lparr>last_x := Some 0, last_y := Some 0\<rparr>"


section \<open>The mesh\<close>

text \<open>
  A face is the Python list \<^verbatim>\<open>[a, b, c]\<close> of three vertex indices; the faces of a mesh are
  a list of such triples and its vertices a list of points.
\<close>

type_synonym face = "nat \<times> nat \<times> nat"

record mesh_state =
  vertices :: "vec3 list"
  faces :: "face list"
  vertex_count :: nat

definition num_sides :: nat where
  "num_sides = 8"

definition step :: nat where
  "step = 2"

fun slice_step :: "nat \<Rightarrow> 'a list \<Rightarrow> 'a list" where
  \<comment> \<open>\<^verbatim>\<open>xs[::k]\<close> for a positive \<open>k\<close>\<close>
  "slice_step k [] = []"
| "slice_step k (x # xs) = x # slice_step k (drop (k - 1) xs)"

definition ring_offset :: "vec3 \<Rightarrow> vec3 \<Rightarrow> real \<Rightarrow> nat \<Rightarrow> vec3" where
  "ring_offset right up radius j =
     (let angle = 2 * pi * real j / real num_sides
      in vadd (vscale (vscale right (cos angle)) radius) (vscale (vscale up (sin angle)) radius))"

definition side_faces :: "nat \<Rightarrow> face list" where
  "side_faces base_idx = concat (map (\<lambda>j.
       let next_j = (j + 1) mod num_sides
       in [(base_idx + j, base_idx + next_j, base_idx + num_sides + j),
           (base_idx + next_j, base_idx + num_sides + next_j, base_idx + num_sides + j)])
     [0..<num_sides])"

definition start_cap_faces :: "nat \<Rightarrow> nat \<Rightarrow> face list" where
  "start_cap_faces center_start_idx base_idx = map (\<lambda>j.
       let next_j = (j + 1) mod num_sides
       in (center_start_idx, base_idx + next_j, base_idx + j))
     [0..<num_sides]"

definition end_cap_faces :: "nat \<Rightarrow> nat \<Rightarrow> face list" where
  "end_cap_faces center_end_idx base_idx = map (\<lambda>j.
       let next_j = (j + 1) mod num_sides
       in (center_end_idx, base_idx + num_sides + j, base_idx + num_sides + next_j))
     [0..<num_sides]"

definition non_degenerate :: "segment \<Rightarrow> bool" where
  \<comment> \<open>the segment passes both \<^verbatim>\<open>continue\<close> tests of the loop\<close>
  "non_degenerate seg =
     (\<not> norm3 (vsub (seg_end seg) (seg_start seg)) < 0.001 \<and>
      isfinite_all (seg_start seg) \<and> isfinite_all (seg_end seg))"

definition add_tube :: "segment \<Rightarrow> mesh_state \<Rightarrow> mesh_state" where
  \<comment> \<open>the two rings of a segment and the side faces between them\<close>
  "add_tube seg st =
     (let start = seg_start seg;
          endp = seg_end seg;
          segment_length = norm3 (vsub endp start);
          direction = vdiv (vsub endp start) segment_length;
          up0 = (if \<bar>snd (snd direction)\<bar> < 0.9 then (0, 0, 1) else (1, 0, 0));
          right0 = cross direction up0;
          right = vdiv right0 (norm3 right0);
          up1 = cross right direction;
          up = vdiv up1 (norm3 up1);
          radius = min (width seg) (height seg) / 2;
          start_verts = map (\<lambda>j. vadd start (ring_offset right up radius j)) [0..<num_sides];
          end_verts = map (\<lambda>j. vadd endp (ring_offset right up radius j)) [0..<num_sides];
          base_idx = vertex_count st
      in st\<lparr>vertices := vertices st @ start_verts @ end_verts,
             vertex_count := vertex_count st + 2 * num_sides,
             faces := faces st @ side_faces base_idx\<rparr>)"

definition add_caps :: "segment \<Rightarrow> nat \<Rightarrow> mesh_state \<Rightarrow> mesh_state" where
  \<comment> \<open>the start cap and the end cap of the tube whose rings begin at \<open>base_idx\<close>\<close>
  "add_caps seg base_idx st =
     (let center_start_idx = vertex_count st;
          st1 = st\<lparr>vertices := vertices st @ [seg_start seg],
                   vertex_count := vertex_count st + 1,
                   faces := faces st @ start_cap_faces center_start_idx base_idx\<rparr>;
          center_end_idx = vertex_count st1
      in st1\<lparr>vertices := vertices st1 @ [seg_end seg],
              vertex_count := vertex_count st1 + 1,
              faces := faces st1 @ end_cap_faces center_end_idx base_idx\<rparr>)"

definition process_segment :: "nat \<Rightarrow> nat \<Rightarrow> segment \<Rightarrow> mesh_state \<Rightarrow> mesh_state" where
  \<comment> \<open>one turn of the loop: \<open>n\<close> is \<^verbatim>\<open>len(sampled_segments)\<close>, \<open>i\<close> the index of the segment\<close>
  "process_segment n i seg st =
     (if norm3 (vsub (seg_end seg) (seg_start seg)) < 0.001 then st
      else if \<not> (isfinite_all (seg_start seg) \<and> isfinite_all (seg_end seg)) then st
      else
        (let base_idx = vertex_count st;
             st1 = add_tube seg st
         in if i = 0 \<or> i = n - 1 then add_caps seg base_idx st1 else st1))"

fun mesh_loop :: "nat \<Rightarrow> nat \<Rightarrow> segment list \<Rightarrow> mesh_state \<Rightarrow> mesh_state" where
  "mesh_loop n i [] st = st"
| "mesh_loop n i (seg # rest) st = mesh_loop n (Suc i) rest (process_segment n i seg st)"

definition create_cylindrical_extrusion_mesh ::
    "segment list \<Rightarrow> real \<Rightarrow> real \<Rightarrow> vec3 list \<times> face list" where
  "create_cylindrical_extrusion_mesh segs layer_height extrusion_width =
     (let sampled_segments = slice_step step segs;
          st = mesh_loop (length sampled_segments) 0 sampled_segments
                 \<lparr>vertices = [], faces = [], vertex_count = 0\<rparr>
      in (vertices st, faces st))"


text \<open>Counting for the sizing law, and three segments to run the builder on.\<close>

fun cap_count :: "nat \<Rightarrow> nat \<Rightarrow> segment list \<Rightarrow> nat" where
  \<comment> \<open>how many segments of the rest of the loop, entered at index \<open>i\<close>, receive caps\<close>
  "cap_count n i [] = 0"
| "cap_count n i (seg # rest) =
     (if non_degenerate seg \<and> (i = 0 \<or> i = n - 1) then 1 else 0) + cap_count n (Suc i) rest"

definition capped_segments :: "segment list \<Rightarrow> nat" where
  \<comment> \<open>how many of the first and the last sampled segment pass the tests of the loop; one
      sampled segment is both the first and the last\<close>
  "capped_segments ss =
     (if ss \<noteq> [] \<and> non_degenerate (hd ss) then 1 else 0) +
     (if 2 \<le> length ss \<and> non_degenerate (last ss) then 1 else 0)"

definition unit_segment :: segment where
  "unit_segment = \<lparr>seg_start = (0, 0, 0), seg_end = (1, 0, 0), width = 0.4, height = 0.2,
                    extrusion_amount = 1\<rparr>"

definition zero_segment :: segment where
  "zero_segment = \<lparr>seg_start = (0, 0, 0), seg_end = (0, 0, 0), width = 0.4, height = 0.2,
                    extrusion_amount = 1\<rparr>"

definition flat_segment :: segment where
  "flat_segment = \<lparr>seg_start = (0, 0, 0), seg_end = (1, 0, 0), width = 0.4, height = 0,
                    extrusion_amount = 1\<rparr>"


text \<open>The invariant of the mesh, for one face.\<close>

definition face_ok :: "vec3 list \<Rightarrow> face \<Rightarrow> bool" where
  \<comment> \<open>the indices of a face lie in the vertex list and differ from one another\<close>
  "face_ok vs f = (case f of (a, b, c) \<Rightarrow>
     a < length vs \<and> b < length vs \<and> c < length vs \<and> a \<noteq> b \<and> b \<noteq> c \<and> a \<noteq> c)"


section \<open>Binary STL serializer\<close>

type_synonym byte = "8 word"

text \<open>
  \<^verbatim>\<open>struct.pack('<I', n)\<close> and \<^verbatim>\<open>struct.pack('<H', n)\<close>: the little-endian bytes of an
  unsigned integer, \<^verbatim>\<open>struct.error\<close> when it does not fit.
\<close>

definition le_bytes :: "nat \<Rightarrow> nat \<Rightarrow> byte list" where
  "le_bytes k n = map (\<lambda>i. word_of_nat (n div 256 ^ i mod 256)) [0..<k]"

definition pack_I :: "nat \<Rightarrow> error + byte list" where
  "pack_I n = (if n < 2 ^ 32 then Inr (le_bytes 4 n) else Inl StructError)"

definition pack_H :: "nat \<Rightarrow> error + byte list" where
  "pack_H n = (if n < 2 ^ 16 then Inr (le_bytes 2 n) else Inl StructError)"

text \<open>
  \<^verbatim>\<open>struct.pack('<f', x)\<close> writes the four bytes of the IEEE single-precision bit pattern
  of \<open>x\<close> and raises when \<open>x\<close> is too large for that format. The bit pattern is a parameter
  \<open>f32\<close> of the serializer: a 32-bit word, or \<open>None\<close> for the overflow.
\<close>

definition pack_f :: "(real \<Rightarrow> 32 word option) \<Rightarrow> real \<Rightarrow> error + byte list" where
  "pack_f f32 x = (case f32 x of None \<Rightarrow> Inl StructError | Some w \<Rightarrow> Inr (le_bytes 4 (unat w)))"

definition pack_fff :: "(real \<Rightarrow> 32 word option) \<Rightarrow> vec3 \<Rightarrow> error + byte list" where
  "pack_fff f32 v = (case v of (a, b, c) \<Rightarrow>
     ebind (pack_f f32 a) (\<lambda>ba.
     ebind (pack_f f32 b) (\<lambda>bb.
     ebind (pack_f f32 c) (\<lambda>bc. Inr (ba @ bb @ bc)))))"

definition vget :: "vec3 list \<Rightarrow> nat \<Rightarrow> error + vec3" where
  \<comment> \<open>\<^verbatim>\<open>vertices[i]\<close> for an index that is not negative\<close>
  "vget verts i = (if i < length verts then Inr (verts ! i) else Inl IndexError)"

definition header :: "byte list" where
  "header = map of_char ''Ultra high-fidelity G-code conversion - watertight mesh'' @ replicate 24 0"

definition face_normal :: "vec3 \<Rightarrow> vec3 \<Rightarrow> vec3 \<Rightarrow> vec3" where
  "face_normal p0 p1 p2 =
     (let v1 = vsub p1 p0;
          v2 = vsub p2 p0;
          normal = cross v1 v2;
          normal_length = norm3 normal
      in if normal_length > 0 then vdiv normal normal_length else (0, 0, 1))"

definition write_face :: "(real \<Rightarrow> 32 word option) \<Rightarrow> vec3 list \<Rightarrow> face \<Rightarrow> error + byte list" where
  "write_face f32 verts fc = (case fc of (i0, i1, i2) \<Rightarrow>
     ebind (vget verts i1) (\<lambda>p1.
     ebind (vget verts i0) (\<lambda>p0.
     ebind (vget verts i2) (\<lambda>p2.
     ebind (pack_fff f32 (face_normal p0 p1 p2)) (\<lambda>bn.
     ebind (pack_fff f32 p0) (\<lambda>b0.
     ebind (pack_fff f32 p1) (\<lambda>b1.
     ebind (pack_fff f32 p2) (\<lambda>b2.
     ebind (pack_H 0) (\<lambda>ba. Inr (bn @ b0 @ b1 @ b2 @ ba))))))))))"

fun write_faces :: "(real \<Rightarrow> 32 word option) \<Rightarrow> vec3 list \<Rightarrow> face list \<Rightarrow> error + byte list" where
  "write_faces f32 verts [] = Inr []"
| "write_faces f32 verts (fc # tris) =
     ebind (write_face f32 verts fc) (\<lambda>bs.
     ebind (write_faces f32 verts tris) (\<lambda>rest. Inr (bs @ rest)))"

definition write_stl_binary :: "(real \<Rightarrow> 32 word option) \<Rightarrow> vec3 list \<Rightarrow> face list \<Rightarrow> error + byte list" where
  \<comment> \<open>the bytes written to the file, or the exception that ends the writing\<close>
  "write_stl_binary f32 verts tris =
     ebind (pack_I (length tris)) (\<lambda>count.
     ebind (write_faces f32 verts tris) (\<lambda>body. Inr (header @ count @ body)))"

definition unpack_I :: "byte list \<Rightarrow> nat option" where
  \<comment> \<open>\<^verbatim>\<open>struct.unpack('<I', bs)\<close>, the reader's side of the count field\<close>
  "unpack_I bs = (case bs of [b0, b1, b2, b3] \<Rightarrow>
       Some (unat b0 + 256 * unat b1 + 65536 * unat b2 + 16777216 * unat b3)
     | _ \<Rightarrow> None)"


section \<open>Properties of the serializer\<close>

lemma ebind_Inr_iff: "ebind r f = Inr y \<longleftrightarrow> (\<exists>x. r = Inr x \<and> f x = Inr y)"
  by (cases r) (simp_all add: ebind_def)

lemma length_header: "length header = 79"
  by (simp add: header_def)

lemma length_le_bytes: "length (le_bytes k n) = k"
  by (simp add: le_bytes_def)

lemma four_bytes:
  "n mod 256 + 256 * (n div 256 mod 256) + 65536 * (n div 65536 mod 256) +
     16777216 * (n div 16777216) = (n::nat)"
proof -
  define a where "a = n div 256"
  define b where "b = a div 256"
  define c where "c = b div 256"
  define r0 where "r0 = n mod 256"
  define r1 where "r1 = a mod 256"
  define r2 where "r2 = b mod 256"
  have n: "n = r0 + 256 * a" by (simp add: a_def r0_def)
  have a: "a = r1 + 256 * b" by (simp add: b_def r1_def)
  have b: "b = r2 + 256 * c" by (simp add: c_def r2_def)
  have e1: "n div 65536 = b" by (simp add: a_def b_def div_mult2_eq)
  have e2: "n div 16777216 = c" by (simp add: a_def b_def c_def div_mult2_eq)
  have "r0 + 256 * r1 + 65536 * r2 + 16777216 * c = n"
    using n a b by linarith
  then show ?thesis
    by (simp only: e1 e2 r0_def r1_def r2_def a_def)
qed

lemma unpack_I_le_bytes: "n < 2 ^ 32 \<Longrightarrow> unpack_I (le_bytes 4 n) = Some n"
  by (simp add: le_bytes_def unpack_I_def upt_rec unat_of_nat four_bytes)

lemma pack_f_length: "pack_f f32 x = Inr bs \<Longrightarrow> length bs = 4"
  by (auto simp: pack_f_def length_le_bytes split: option.splits)

lemma pack_fff_length: "pack_fff f32 v = Inr bs \<Longrightarrow> length bs = 12"
  by (cases v) (auto simp: pack_fff_def ebind_Inr_iff dest!: pack_f_length)

lemma write_face_length: "write_face f32 verts fc = Inr bs \<Longrightarrow> length bs = 50"
  by (cases fc)
     (auto simp: write_face_def ebind_Inr_iff pack_H_def length_le_bytes dest!: pack_fff_length)

lemma write_faces_length:
  "write_faces f32 verts tris = Inr bs \<Longrightarrow> length bs = 50 * length tris"
  by (induction tris arbitrary: bs) (auto simp: ebind_Inr_iff dest!: write_face_length)

text \<open>
  What the serializer writes for any mesh, whenever it returns: a header of 79 bytes, the
  count in the four bytes at offset 79, and 50 bytes for each face.
\<close>

lemma write_stl_binary_layout:
  assumes "write_stl_binary f32 verts tris = Inr bs"
  shows "length bs = 79 + 4 + 50 * length tris"
    and "unpack_I (take 4 (drop 79 bs)) = Some (length tris)"
proof -
  from assms obtain count body where c: "pack_I (length tris) = Inr count"
    and b: "write_faces f32 verts tris = Inr body" and bs: "bs = header @ count @ body"
    by (auto simp: write_stl_binary_def ebind_Inr_iff)
  from c have lt: "length tris < 2 ^ 32" and count: "count = le_bytes 4 (length tris)"
    by (auto simp: pack_I_def split: if_splits)
  show "length bs = 79 + 4 + 50 * length tris"
    using write_faces_length[OF b] by (simp add: bs count length_header length_le_bytes)
  show "unpack_I (take 4 (drop 79 bs)) = Some (length tris)"
    using unpack_I_le_bytes[OF lt] by (simp add: bs count length_header length_le_bytes)
qed

text \<open>
  Claim C1 (STL byte-length law): for F faces the output has 80 + 4 + 50 F bytes and the
  count read at offset 80 is F. The header literal of the serializer is 55 characters and
  24 zero bytes, 79 bytes in all, under the comment "STL header (80 bytes)". For the empty
  mesh (F = 0) the serializer returns 83 bytes, not 84, and only three bytes follow
  offset 80, so no count can be read there.
\<close>

theorem write_stl_binary_empty_mesh:
  "write_stl_binary f32 [] [] = Inr (header @ [0, 0, 0, 0])
   \<and> length (header @ [0, 0, 0, 0 :: byte]) = 83
   \<and> unpack_I (take 4 (drop 80 (header @ [0, 0, 0, 0]))) = None"
  by (simp add: write_stl_binary_def ebind_def pack_I_def le_bytes_def upt_rec length_header
        unpack_I_def)


section \<open>Properties of the parser\<close>

subsection \<open>The conversion of a captured text never raises\<close>






subsection \<open>What one line does to the state\<close>

lemma update_z_fields:
  "segments (update_z z st) = segments st"
  "last_x (update_z z st) = last_x st"
  "last_y (update_z z st) = last_y st"
  "last_e (update_z z st) = last_e st"
  "detected_extrusion_width (update_z z st) = detected_extrusion_width st"
  "current_z (update_z z st) = (case z of None \<Rightarrow> current_z st | Some v \<Rightarrow> v)"
  by (auto simp: update_z_def Let_def split: option.splits)

lemma scan_comment_fields:
  assumes "scan_comment n line st = Inr st'"
  shows "segments st' = segments st" "last_x st' = last_x st" "last_y st' = last_y st"
    "last_e st' = last_e st" "current_z st' = current_z st" "last_z st' = last_z st"
  using assms by (auto simp: scan_comment_def ebind_Inr_iff split: if_splits)

lemma emit_cases:
  "emit x y em e st = st \<or>
   (\<exists>xv yv lx ly. x = Some xv \<and> y = Some yv \<and> last_x st = Some lx \<and> last_y st = Some ly \<and>
      em \<and> e > last_e st \<and>
      emit x y em e st = st\<lparr>segments := segments st @
         [\<lparr>seg_start = (lx, ly, current_z st), seg_end = (xv, yv, current_z st),
           width = actual_width (e - last_e st) (sqrt ((xv - lx)\<^sup>2 + (yv - ly)\<^sup>2)) st,
           height = detected_layer_height st, extrusion_amount = e - last_e st\<rparr>]\<rparr>)"
  by (auto simp: emit_def Let_def split: option.splits)

lemma emit_fields:
  "current_z (emit x y em e st) = current_z st"
  "last_x (emit x y em e st) = last_x st"
  "last_y (emit x y em e st) = last_y st"
  using emit_cases[of x y em e st] by auto

lemma motion_new_segment:
  assumes "motion line st = Inr st'"
  shows "segments st' = segments st \<or>
    (\<exists>lx ly x y w h a. last_x st = Some lx \<and> last_y st = Some ly \<and>
       last_x st' = Some x \<and> last_y st' = Some y \<and>
       segments st' = segments st @
         [\<lparr>seg_start = (lx, ly, current_z st'), seg_end = (x, y, current_z st'),
           width = w, height = h, extrusion_amount = a\<rparr>])"
proof -
  from assms obtain xm ym em zm where
    st': "st' = (emit (case xm of Some v \<Rightarrow> Some v | None \<Rightarrow> last_x st)
                      (case ym of Some v \<Rightarrow> Some v | None \<Rightarrow> last_y st)
                      (em \<noteq> None)
                      (case em of Some v \<Rightarrow> v | None \<Rightarrow> last_e st)
                      (update_z zm st))
                \<lparr>last_x := (case xm of Some v \<Rightarrow> Some v | None \<Rightarrow> last_x st),
                 last_y := (case ym of Some v \<Rightarrow> Some v | None \<Rightarrow> last_y st),
                 last_e := (case em of Some v \<Rightarrow> v | None \<Rightarrow> last_e st)\<rparr>"
    by (auto simp: motion_def ebind_Inr_iff Let_def)
  define x where "x = (case xm of Some v \<Rightarrow> Some v | None \<Rightarrow> last_x st)"
  define y where "y = (case ym of Some v \<Rightarrow> Some v | None \<Rightarrow> last_y st)"
  define e where "e = (case em of Some v \<Rightarrow> v | None \<Rightarrow> last_e st)"
  define st1 where "st1 = update_z zm st"
  define b where "b = (em \<noteq> None)"
  have st'': "st' = (emit x y b e st1)\<lparr>last_x := x, last_y := y, last_e := e\<rparr>"
    by (simp add: st' x_def y_def e_def st1_def b_def)
  from emit_cases[of x y b e st1] show ?thesis
  proof
    assume "emit x y b e st1 = st1"
    then show ?thesis by (simp add: st'' st1_def update_z_fields)
  next
    assume "\<exists>xv yv lx ly. x = Some xv \<and> y = Some yv \<and> last_x st1 = Some lx \<and> last_y st1 = Some ly \<and>
      b \<and> e > last_e st1 \<and>
      emit x y b e st1 = st1\<lparr>segments := segments st1 @
         [\<lparr>seg_start = (lx, ly, current_z st1), seg_end = (xv, yv, current_z st1),
           width = actual_width (e - last_e st1) (sqrt ((xv - lx)\<^sup>2 + (yv - ly)\<^sup>2)) st1,
           height = detected_layer_height st1, extrusion_amount = e - last_e st1\<rparr>]\<rparr>"
    then obtain xv yv lx ly where f: "x = Some xv" "y = Some yv" "last_x st1 = Some lx"
      "last_y st1 = Some ly"
      and em: "emit x y b e st1 = st1\<lparr>segments := segments st1 @
         [\<lparr>seg_start = (lx, ly, current_z st1), seg_end = (xv, yv, current_z st1),
           width = actual_width (e - last_e st1) (sqrt ((xv - lx)\<^sup>2 + (yv - ly)\<^sup>2)) st1,
           height = detected_layer_height st1, extrusion_amount = e - last_e st1\<rparr>]\<rparr>"
      by blast
    have "last_x st = Some lx" "last_y st = Some ly"
      using f by (simp_all add: st1_def update_z_fields)
    moreover have "last_x st' = Some xv" "last_y st' = Some yv" by (simp_all add: st'' f)
    moreover have "current_z st' = current_z st1" by (simp add: st'' emit_fields)
    moreover have "segments st' = segments st @
         [\<lparr>seg_start = (lx, ly, current_z st1), seg_end = (xv, yv, current_z st1),
           width = actual_width (e - last_e st1) (sqrt ((xv - lx)\<^sup>2 + (yv - ly)\<^sup>2)) st1,
           height = detected_layer_height st1, extrusion_amount = e - last_e st1\<rparr>]"
    proof -
      have "segments st1 = segments st" by (simp add: st1_def update_z_fields)
      then show ?thesis by (simp add: st'' em)
    qed
    ultimately show ?thesis by auto
  qed
qed

lemma motion_current_z:
  assumes "motion line st = Inr st'" "float_group (search_field CHR ''Z'' line) = Inr zm"
  shows "current_z st' = (case zm of None \<Rightarrow> current_z st | Some z \<Rightarrow> z)"
  using assms by (auto simp: motion_def ebind_Inr_iff Let_def emit_fields update_z_fields)

lemma process_line_new_segment:
  assumes "process_line n raw st = Inr st'"
  shows "segments st' = segments st \<or>
    (\<exists>lx ly x y w h a. last_x st = Some lx \<and> last_y st = Some ly \<and>
       last_x st' = Some x \<and> last_y st' = Some y \<and>
       segments st' = segments st @
         [\<lparr>seg_start = (lx, ly, current_z st'), seg_end = (x, y, current_z st'),
           width = w, height = h, extrusion_amount = a\<rparr>])"
proof -
  from assms obtain st1 where s: "scan_comment n (strip raw) st = Inr st1"
    and m: "(if startswith (strip raw) ''G1'' \<or> startswith (strip raw) ''G0''
             then motion (strip raw) st1 else Inr st1) = Inr st'"
    by (auto simp: process_line_def Let_def ebind_Inr_iff)
  note sf = scan_comment_fields[OF s]
  show ?thesis
  proof (cases "startswith (strip raw) ''G1'' \<or> startswith (strip raw) ''G0''")
    case True
    with m have "motion (strip raw) st1 = Inr st'" by simp
    from motion_new_segment[OF this] show ?thesis by (simp add: sf)
  next
    case False
    with m have "st' = st1" by simp
    then show ?thesis by (simp add: sf)
  qed
qed

subsection \<open>Emitted segments\<close>

lemma sqrt100: "sqrt 100 = 10"
  using real_sqrt_abs[of 10] by simp

lemmas parse_eval = parse_gcode_to_segments_def init_state_def process_line_def scan_comment_def motion_def
     emit_def update_z_def actual_width_def float_group_def py_float_def match_number_def is_digit_def
      digits_val_def digit_val_def strip_def isspace_def Let_def ebind_def lower_def lower_char_def

lemma parse_lines_segments:
  assumes "parse_lines n lines st = Inr st'"
  shows "\<exists>new. segments st' = segments st @ new \<and>
     (\<forall>seg\<in>set new. snd (snd (seg_start seg)) = snd (snd (seg_end seg)))"
  using assms
proof (induction lines arbitrary: n st)
  case Nil
  then show ?case by simp
next
  case (Cons raw rest)
  from Cons.prems obtain st1 where p: "process_line n raw st = Inr st1"
    and r: "parse_lines (Suc n) rest st1 = Inr st'"
    by (auto simp: ebind_Inr_iff)
  from Cons.IH[OF r] obtain new where new: "segments st' = segments st1 @ new"
    "\<forall>seg\<in>set new. snd (snd (seg_start seg)) = snd (snd (seg_end seg))"
    by blast
  from process_line_new_segment[OF p] show ?case
  proof
    assume "segments st1 = segments st"
    with new show ?thesis by auto
  next
    assume "\<exists>lx ly x y w h a. last_x st = Some lx \<and> last_y st = Some ly \<and>
       last_x st1 = Some x \<and> last_y st1 = Some y \<and>
       segments st1 = segments st @
         [\<lparr>seg_start = (lx, ly, current_z st1), seg_end = (x, y, current_z st1),
           width = w, height = h, extrusion_amount = a\<rparr>]"
    then obtain seg where s: "segments st1 = segments st @ [seg]"
      "snd (snd (seg_start seg)) = snd (snd (seg_end seg))"
      by auto
    have "segments st' = segments st @ (seg # new)" by (simp add: new s)
    moreover have "\<forall>seg\<in>set (seg # new). snd (snd (seg_start seg)) = snd (snd (seg_end seg))"
      using new(2) s(2) by simp
    ultimately show ?thesis by blast
  qed
qed

lemma parse_gcode_to_segments_segments:
  assumes "parse_gcode_to_segments lh ew lines = Inr (segs, h, w)" "seg \<in> set segs"
  shows "snd (snd (seg_start seg)) = snd (snd (seg_end seg))"
proof -
  from assms(1) obtain st where p: "parse_lines 0 lines (init_state lh ew) = Inr st"
    and segs: "segs = segments st"
    by (auto simp: parse_gcode_to_segments_def ebind_Inr_iff)
  from parse_lines_segments[OF p] assms(2) show ?thesis
    by (auto simp: segs init_state_def)
qed

text \<open>
  Claim C9 (segment-emission law): on the lines \<^verbatim>\<open>G1 X0 Y0 E0\<close>, \<^verbatim>\<open>G1 X10 Y0 E5\<close>,
  \<^verbatim>\<open>G1 X10 Y10\<close> the parser emits exactly one segment, from (0, 0, z) to (10, 0, z) with
  z the running Z value 0: the first line emits nothing, the second emits the segment, and
  the third moves the position to (10, 10) and emits nothing.
\<close>

theorem segment_emission_law:
  "parse_lines 0 [''G1 X0 Y0 E0''] (init_state 0.2 0.4) = Inr at_origin
   \<and> segments at_origin = []
   \<and> parse_lines 1 [''G1 X10 Y0 E5''] at_origin =
       Inr (at_origin\<lparr>segments := [\<lparr>seg_start = (0, 0, 0), seg_end = (10, 0, 0), width = 2,
                                     height = 0.2, extrusion_amount = 5\<rparr>],
                      last_x := Some 10, last_e := 5\<rparr>)
   \<and> parse_lines 2 [''G1 X10 Y10'']
         (at_origin\<lparr>segments := [\<lparr>seg_start = (0, 0, 0), seg_end = (10, 0, 0), width = 2,
                                     height = 0.2, extrusion_amount = 5\<rparr>],
                      last_x := Some 10, last_e := 5\<rparr>) =
       Inr (at_origin\<lparr>segments := [\<lparr>seg_start = (0, 0, 0), seg_end = (10, 0, 0), width = 2,
                                     height = 0.2, extrusion_amount = 5\<rparr>],
                      last_x := Some 10, last_y := Some 10, last_e := 5\<rparr>)
   \<and> parse_gcode_to_segments 0.2 0.4 [''G1 X0 Y0 E0'', ''G1 X10 Y0 E5'', ''G1 X10 Y10''] =
       Inr ([\<lparr>seg_start = (0, 0, 0), seg_end = (10, 0, 0), width = 2, height = 0.2,
              extrusion_amount = 5\<rparr>], 0.2, 0.4)"
  by (simp add: parse_eval at_origin_def sqrt100)

text \<open>
  Claim C3 (layer height from consecutive Z steps): a step in [0.1, 1.0] between the new Z
  and the immediately previous Z becomes the detected layer height. The parser compares
  the new Z with \<open>last_z\<close>, which holds the Z that was current before the previous Z line.
  On layers at 0.3, 0.6 and 0.9 the consecutive step is 0.3 and the parser reports 0.6.
\<close>

theorem layer_height_from_stale_z:
  "parse_gcode_to_segments 0.2 0.4 [''G1 Z0.3'', ''G1 Z0.6'', ''G1 Z0.9''] = Inr ([], 0.6, 0.4)"
  by (simp add: parse_eval)

text \<open>
  Claim C4 (zero-length extrusion moves): the claim says that a line that extrudes without
  moving in X and Y is dropped. The parser skips the width division for it and appends the
  segment all the same, with the detected extrusion width as its width: in \<open>motion\<close>, when
  the E field increases and the resolved position equals the previous one, the segment from
  that point to itself is appended.
\<close>

theorem zero_length_segment_width:
  assumes "motion line st = Inr st'"
    and "float_group (search_field CHR ''E'' line) = Inr (Some e)" and "last_e st < e"
    and "last_x st = Some lx" and "last_y st = Some ly"
    and "last_x st' = Some lx" and "last_y st' = Some ly"
  shows "segments st' = segments st @
     [\<lparr>seg_start = (lx, ly, current_z st'), seg_end = (lx, ly, current_z st'),
       width = detected_extrusion_width st, height = detected_layer_height st',
       extrusion_amount = e - last_e st\<rparr>]"
proof -
  from assms(1,2) obtain xm ym zm where
    st': "st' = (emit (case xm of Some v \<Rightarrow> Some v | None \<Rightarrow> last_x st)
                      (case ym of Some v \<Rightarrow> Some v | None \<Rightarrow> last_y st)
                      True e (update_z zm st))
                \<lparr>last_x := (case xm of Some v \<Rightarrow> Some v | None \<Rightarrow> last_x st),
                 last_y := (case ym of Some v \<Rightarrow> Some v | None \<Rightarrow> last_y st),
                 last_e := e\<rparr>"
    by (auto simp: motion_def ebind_Inr_iff Let_def)
  from assms(6,7) have x: "(case xm of Some v \<Rightarrow> Some v | None \<Rightarrow> last_x st) = Some lx"
    and y: "(case ym of Some v \<Rightarrow> Some v | None \<Rightarrow> last_y st) = Some ly"
    by (simp_all add: st')
  show ?thesis
    using assms(3,4,5)
    by (simp add: st' x y emit_def update_z_fields actual_width_def Let_def)
qed

theorem zero_length_segment_width_witness:
  "motion ''G1 X0 Y0 E1'' at_origin =
     Inr (at_origin\<lparr>segments := [\<lparr>seg_start = (0, 0, 0), seg_end = (0, 0, 0), width = 0.4,
                                   height = 0.2, extrusion_amount = 1\<rparr>], last_e := 1\<rparr>)
   \<and> float_group (search_field CHR ''E'' ''G1 X0 Y0 E1'') = Inr (Some 1)
   \<and> last_e at_origin < 1 \<and> last_x at_origin = Some 0 \<and> last_y at_origin = Some 0
   \<and> segments (at_origin\<lparr>segments := [\<lparr>seg_start = (0, 0, 0), seg_end = (0, 0, 0), width = 0.4,
                                   height = 0.2, extrusion_amount = 1\<rparr>], last_e := 1\<rparr>) =
       segments at_origin @
        [\<lparr>seg_start = (0, 0, 0), seg_end = (0, 0, 0),
          width = detected_extrusion_width at_origin, height = 0.2, extrusion_amount = 1 - 0\<rparr>]"
proof -
  have m: "motion ''G1 X0 Y0 E1'' at_origin =
     Inr (at_origin\<lparr>segments := [\<lparr>seg_start = (0, 0, 0), seg_end = (0, 0, 0), width = 0.4,
                                   height = 0.2, extrusion_amount = 1\<rparr>], last_e := 1\<rparr>)"
    by (simp add: parse_eval at_origin_def)
  have e: "float_group (search_field CHR ''E'' ''G1 X0 Y0 E1'') = Inr (Some 1)"
    by (simp add: parse_eval)
  show ?thesis
    using zero_length_segment_width[OF m e, of 0 0] m e
    by (simp add: at_origin_def init_state_def)
qed

text \<open>
  The claim as stated fails on two lines that extrude in place: one segment of length zero
  is returned.
\<close>

theorem zero_length_segment_emitted:
  "parse_gcode_to_segments 0.2 0.4 [''G1 X0 Y0 E0'', ''G1 X0 Y0 E1''] =
     Inr ([\<lparr>seg_start = (0, 0, 0), seg_end = (0, 0, 0), width = 0.4, height = 0.2,
            extrusion_amount = 1\<rparr>], 0.2, 0.4)"
  by (simp add: parse_eval)

lemma clamp_py:
  assumes "w \<noteq> NaN"
  shows "\<exists>v. py_min (py_max w (Finite 0.1)) (Finite 2.0) = Finite v \<and> 0.1 \<le> v \<and> v \<le> 2"
proof (cases w)
  case (Finite x)
  consider "x < 0.1" | "0.1 \<le> x \<and> x \<le> 2" | "2 < x" by linarith
  then show ?thesis
  proof cases
    case 1
    then have "py_min (py_max w (Finite 0.1)) (Finite 2.0) = Finite 0.1"
      by (simp add: Finite py_min_def py_max_def)
    then show ?thesis by (intro exI[of _ "0.1"]) simp
  next
    case 2
    then have "py_min (py_max w (Finite 0.1)) (Finite 2.0) = Finite x"
      by (simp add: Finite py_min_def py_max_def)
    then show ?thesis using 2 by (intro exI[of _ x]) simp
  next
    case 3
    then have "py_min (py_max w (Finite 0.1)) (Finite 2.0) = Finite 2"
      by (simp add: Finite py_min_def py_max_def)
    then show ?thesis by (intro exI[of _ 2]) simp
  qed
next
  case PosInf
  then have "py_min (py_max w (Finite 0.1)) (Finite 2.0) = Finite 2"
    by (simp add: py_min_def py_max_def)
  then show ?thesis by (intro exI[of _ 2]) simp
next
  case NegInf
  then have "py_min (py_max w (Finite 0.1)) (Finite 2.0) = Finite 0.1"
    by (simp add: py_min_def py_max_def)
  then show ?thesis by (intro exI[of _ "0.1"]) simp
next
  case NaN
  with assms show ?thesis by simp
qed

lemma clamp_py_NaN: "py_min (py_max NaN (Finite 0.1)) (Finite 2.0) = NaN"
  by (simp add: py_min_def py_max_def)

text \<open>
  On real numbers, with the exact product and quotient, the width computation over float
  values is \<open>actual_width\<close>, which the parser above uses.
\<close>

lemma py_clamp_finite:
  "py_min (py_max (Finite q) (Finite 0.1)) (Finite 2.0) = Finite (min (max q 0.1) 2)"
  by (simp add: py_min_def py_max_def min_def max_def)

lemma actual_width_py_finite:
  "actual_width_py (\<lambda>a b. Finite (len * detected_layer_height st))
      (\<lambda>a b. Finite (amount / (len * detected_layer_height st)))
      (Finite amount) (Finite len) (Finite (detected_layer_height st))
      (Finite (detected_extrusion_width st)) =
   Finite (actual_width amount len st)"
  unfolding actual_width_py_def actual_width_def
  by (simp only: py_lt.simps py_clamp_finite if_distrib[of Finite] split: if_splits) simp

text \<open>
  Claim C7 (width clamp): the claim puts the stored width in [0.1, 2.0] for every triple of
  extrusion amount, segment length and layer height. The clamp \<^verbatim>\<open>min(max(w, 0.1), 2.0)\<close> is
  applied on the branch \<^verbatim>\<open>segment_length > 0\<close> only, and it lets NaN through. So when the
  computed segment length is greater than 0 the stored width lies in [0.1, 2.0] unless the
  value \<open>w\<close> to clamp is NaN, and then NaN is stored; when the computed segment length is not
  greater than 0 the detected extrusion width is stored as it is.
\<close>

theorem width_clamp:
  "(py_lt (Finite 0) segment_length \<and>
      (if py_lt (Finite 0) layer_height then fdiv amount (fmul segment_length layer_height)
       else extrusion_width) \<noteq> NaN \<longrightarrow>
      (\<exists>v. actual_width_py fmul fdiv amount segment_length layer_height extrusion_width = Finite v
           \<and> 0.1 \<le> v \<and> v \<le> 2))
   \<and> (py_lt (Finite 0) segment_length \<and>
      (if py_lt (Finite 0) layer_height then fdiv amount (fmul segment_length layer_height)
       else extrusion_width) = NaN \<longrightarrow>
      actual_width_py fmul fdiv amount segment_length layer_height extrusion_width = NaN)
   \<and> (\<not> py_lt (Finite 0) segment_length \<longrightarrow>
      actual_width_py fmul fdiv amount segment_length layer_height extrusion_width = extrusion_width)"
  using clamp_py[of "if py_lt (Finite 0) layer_height then fdiv amount (fmul segment_length layer_height)
       else extrusion_width"] clamp_py_NaN
  by (auto simp: actual_width_py_def)

theorem width_clamp_witness:
  "py_lt (Finite 0) (Finite 10)
   \<and> (\<lambda>a b. Finite (5 / 2)) (Finite 5) ((\<lambda>a b. Finite 2) (Finite 10) (Finite 0.2)) \<noteq> NaN
   \<and> actual_width_py (\<lambda>a b. Finite 2) (\<lambda>a b. Finite (5 / 2)) (Finite 5) (Finite 10) (Finite 0.2)
         (Finite 0.4) = Finite 2
   \<and> actual_width_py (\<lambda>a b. PosInf) (\<lambda>a b. NaN) PosInf PosInf (Finite 0.2) (Finite 0.4) = NaN
   \<and> \<not> py_lt (Finite 0) (Finite 0)
   \<and> actual_width_py (\<lambda>a b. Finite 0) (\<lambda>a b. PosInf) (Finite 1) (Finite 0) (Finite 0.2) (Finite 5) =
       Finite 5"
  using width_clamp[of "Finite 10" "Finite 0.2" "\<lambda>a b. Finite (5 / 2)" "Finite 5" "\<lambda>a b. Finite 2"
          "Finite 0.4"]
    width_clamp[of PosInf "Finite 0.2" "\<lambda>a b. NaN" PosInf "\<lambda>a b. PosInf" "Finite 0.4"]
    width_clamp[of "Finite 0" "Finite 0.2" "\<lambda>a b. PosInf" "Finite 1" "\<lambda>a b. Finite 0" "Finite 5"]
  by (simp add: actual_width_py_def py_min_def py_max_def)

text \<open>
  The parser on a move of length zero: it stores the detected extrusion width as it is, and
  with a comment that sets the extrusion width to 5 the stored width is 5.
\<close>

theorem unclamped_width_of_zero_length_segment:
  "parse_gcode_to_segments 0.2 0.4 [''; extrusion_width = 5'', ''G1 X0 Y0 E0'', ''G1 X0 Y0 E1''] =
     Inr ([\<lparr>seg_start = (0, 0, 0), seg_end = (0, 0, 0), width = 5, height = 0.2,
            extrusion_amount = 1\<rparr>], 0.2, 5)
   \<and> \<not> width \<lparr>seg_start = (0, 0, 0), seg_end = (0, 0, 0), width = 5 :: real, height = 0.2,
            extrusion_amount = 1\<rparr> \<le> 2"
  by (simp add: parse_eval)







lemma process_line_current_z:
  assumes "process_line n raw st = Inr st'"
    and "startswith (strip raw) ''G1'' \<or> startswith (strip raw) ''G0''"
    and "float_group (search_field CHR ''Z'' (strip raw)) = Inr (Some z)"
  shows "current_z st' = z"
proof -
  from assms(1,2) obtain st1 where s: "scan_comment n (strip raw) st = Inr st1"
    and m: "motion (strip raw) st1 = Inr st'"
    by (auto simp: process_line_def Let_def ebind_Inr_iff)
  from motion_current_z[OF m assms(3)] show ?thesis by simp
qed

text \<open>
  Claim C10 (emitted segments are horizontal): both end points of every emitted segment
  carry the same Z, the value of \<open>current_z\<close> after the Z field of the line was applied.
  A line that raises Z and extrudes gives a segment that starts at the previous XY position
  at the new Z.
\<close>

theorem segments_are_horizontal:
  "(parse_gcode_to_segments lh ew lines = Inr (segs, h, w) \<longrightarrow>
      (\<forall>seg\<in>set segs. snd (snd (seg_start seg)) = snd (snd (seg_end seg))))
   \<and> (process_line n raw st = Inr st' \<longrightarrow>
        segments st' = segments st \<or>
        (\<exists>lx ly x y wd ht a. last_x st = Some lx \<and> last_y st = Some ly \<and>
           segments st' = segments st @
             [\<lparr>seg_start = (lx, ly, current_z st'), seg_end = (x, y, current_z st'),
               width = wd, height = ht, extrusion_amount = a\<rparr>]))
   \<and> (process_line n raw st = Inr st' \<and>
        (startswith (strip raw) ''G1'' \<or> startswith (strip raw) ''G0'') \<and>
        float_group (search_field CHR ''Z'' (strip raw)) = Inr (Some z) \<longrightarrow>
        current_z st' = z)"
proof (intro conjI impI)
  assume "parse_gcode_to_segments lh ew lines = Inr (segs, h, w)"
  then show "\<forall>seg\<in>set segs. snd (snd (seg_start seg)) = snd (snd (seg_end seg))"
    using parse_gcode_to_segments_segments by blast
next
  assume "process_line n raw st = Inr st'"
  from process_line_new_segment[OF this]
  show "segments st' = segments st \<or>
        (\<exists>lx ly x y wd ht a. last_x st = Some lx \<and> last_y st = Some ly \<and>
           segments st' = segments st @
             [\<lparr>seg_start = (lx, ly, current_z st'), seg_end = (x, y, current_z st'),
               width = wd, height = ht, extrusion_amount = a\<rparr>])"
    by blast
next
  assume "process_line n raw st = Inr st' \<and>
        (startswith (strip raw) ''G1'' \<or> startswith (strip raw) ''G0'') \<and>
        float_group (search_field CHR ''Z'' (strip raw)) = Inr (Some z)"
  then show "current_z st' = z" using process_line_current_z by blast
qed

theorem segments_are_horizontal_witness:
  "parse_gcode_to_segments 0.2 0.4 [''G1 X0 Y0 E0'', ''G1 X10 Y0 Z0.3 E1''] =
     Inr ([\<lparr>seg_start = (0, 0, 0.3), seg_end = (10, 0, 0.3), width = 0.5, height = 0.2,
            extrusion_amount = 1\<rparr>], 0.2, 0.4)
   \<and> snd (snd (seg_start \<lparr>seg_start = (0, 0, 0.3), seg_end = (10, 0, 0.3), width = 0.5 :: real,
            height = 0.2 :: real, extrusion_amount = 1 :: real\<rparr>)) =
     snd (snd (seg_end \<lparr>seg_start = (0, 0, 0.3), seg_end = (10, 0, 0.3), width = 0.5 :: real,
            height = 0.2 :: real, extrusion_amount = 1 :: real\<rparr>))
   \<and> process_line 1 ''G1 X10 Y0 Z0.3 E1'' at_origin =
       Inr (at_origin\<lparr>segments := [\<lparr>seg_start = (0, 0, 0.3), seg_end = (10, 0, 0.3), width = 0.5,
                                     height = 0.2, extrusion_amount = 1\<rparr>],
                      current_z := 0.3, last_x := Some 10, last_z := Some 0, last_e := 1\<rparr>)
   \<and> float_group (search_field CHR ''Z'' (strip ''G1 X10 Y0 Z0.3 E1'')) = Inr (Some 0.3)
   \<and> current_z (at_origin\<lparr>segments := [\<lparr>seg_start = (0, 0, 0.3), seg_end = (10, 0, 0.3), width = 0.5,
                                     height = 0.2, extrusion_amount = 1\<rparr>],
                      current_z := 0.3, last_x := Some 10, last_z := Some 0, last_e := 1\<rparr>) = 0.3"
proof -
  let ?seg = "\<lparr>seg_start = (0, 0, 0.3), seg_end = (10, 0, 0.3), width = 0.5 :: real,
            height = 0.2 :: real, extrusion_amount = 1 :: real\<rparr>"
  let ?st' = "at_origin\<lparr>segments := [?seg],
                      current_z := 0.3, last_x := Some 10, last_z := Some 0, last_e := 1\<rparr>"
  have p: "parse_gcode_to_segments 0.2 0.4 [''G1 X0 Y0 E0'', ''G1 X10 Y0 Z0.3 E1''] =
     Inr ([?seg], 0.2, 0.4)"
    by (simp add: parse_eval sqrt100)
  have l: "process_line 1 ''G1 X10 Y0 Z0.3 E1'' at_origin = Inr ?st'"
    by (simp add: parse_eval sqrt100 at_origin_def)
  have z: "float_group (search_field CHR ''Z'' (strip ''G1 X10 Y0 Z0.3 E1'')) = Inr (Some 0.3)"
    by (simp add: parse_eval)
  from segments_are_horizontal[of "0.2" "0.4" "[''G1 X0 Y0 E0'', ''G1 X10 Y0 Z0.3 E1'']" "[?seg]"
      "0.2" "0.4" 1 "''G1 X10 Y0 Z0.3 E1''" at_origin ?st' "0.3"] p l z
  show ?thesis by simp
qed


section \<open>Properties of the mesh builder\<close>

subsection \<open>Vertex and face counts\<close>

lemma length_side_faces: "length (side_faces b) = 2 * num_sides"
  by (simp add: side_faces_def length_concat comp_def Let_def sum_list_triv)

lemma length_cap_faces:
  "length (start_cap_faces c b) = num_sides" "length (end_cap_faces c b) = num_sides"
  by (simp_all add: start_cap_faces_def end_cap_faces_def)

lemma add_tube_counts:
  "length (vertices (add_tube seg st)) = length (vertices st) + 2 * num_sides"
  "length (faces (add_tube seg st)) = length (faces st) + 2 * num_sides"
  "vertex_count (add_tube seg st) = vertex_count st + 2 * num_sides"
  by (simp_all add: add_tube_def Let_def length_side_faces)

lemma add_caps_counts:
  "length (vertices (add_caps seg b st)) = length (vertices st) + 2"
  "length (faces (add_caps seg b st)) = length (faces st) + 2 * num_sides"
  "vertex_count (add_caps seg b st) = vertex_count st + 2"
  by (simp_all add: add_caps_def Let_def length_cap_faces)

lemma process_segment_skip: "\<not> non_degenerate seg \<Longrightarrow> process_segment n i seg st = st"
  by (auto simp: process_segment_def non_degenerate_def)

lemma process_segment_keep:
  "non_degenerate seg \<Longrightarrow> process_segment n i seg st =
     (if i = 0 \<or> i = n - 1 then add_caps seg (vertex_count st) (add_tube seg st) else add_tube seg st)"
  by (auto simp: process_segment_def non_degenerate_def Let_def)

lemma mesh_loop_counts:
  "length (vertices (mesh_loop n i segs st)) =
     length (vertices st) + 2 * num_sides * length (filter non_degenerate segs) + 2 * cap_count n i segs
   \<and> length (faces (mesh_loop n i segs st)) =
     length (faces st) + 2 * num_sides * length (filter non_degenerate segs)
       + 2 * num_sides * cap_count n i segs"
proof (induction segs arbitrary: i st)
  case Nil
  then show ?case by simp
next
  case (Cons seg rest)
  show ?case
  proof (cases "non_degenerate seg")
    case False
    then show ?thesis using Cons[of "Suc i" st] by (simp add: process_segment_skip)
  next
    case True
    then show ?thesis
      using Cons[of "Suc i" "process_segment n i seg st"]
      by (simp add: process_segment_keep add_tube_counts add_caps_counts algebra_simps)
  qed
qed

lemma cap_count_last:
  "0 < i \<Longrightarrow> i + length segs = n - 1 \<Longrightarrow>
   cap_count n i (segs @ [seg]) = (if non_degenerate seg then 1 else 0)"
  by (induction segs arbitrary: i) auto

lemma cap_count_capped: "cap_count (length ss) 0 ss = capped_segments ss"
proof (cases ss)
  case Nil
  then show ?thesis by (simp add: capped_segments_def)
next
  case (Cons a rest)
  show ?thesis
  proof (cases rest rule: rev_cases)
    case Nil
    then show ?thesis using Cons by (simp add: capped_segments_def)
  next
    case (snoc mid z)
    have "cap_count (length ss) (Suc 0) (mid @ [z]) = (if non_degenerate z then 1 else 0)"
      by (rule cap_count_last) (simp_all add: Cons snoc)
    then show ?thesis using Cons snoc by (simp add: capped_segments_def)
  qed
qed

lemma mesh_counts:
  "length (fst (create_cylindrical_extrusion_mesh segs lh ew)) =
     2 * num_sides * length (filter non_degenerate (slice_step step segs))
       + 2 * capped_segments (slice_step step segs)"
  "length (snd (create_cylindrical_extrusion_mesh segs lh ew)) =
     2 * num_sides * length (filter non_degenerate (slice_step step segs))
       + 2 * num_sides * capped_segments (slice_step step segs)"
  using mesh_loop_counts[of "length (slice_step step segs)" 0 "slice_step step segs"
      "\<lparr>vertices = [], faces = [], vertex_count = 0\<rparr>"]
  by (simp_all add: create_cylindrical_extrusion_mesh_def Let_def cap_count_capped)

lemma non_degenerate_unit_segment: "non_degenerate unit_segment"
  by (simp add: non_degenerate_def unit_segment_def norm3_def vsub_def isfinite_all_def isfinite_def)

text \<open>
  Claim C2 (mesh sizing law): the claim gives 2 N M + 2 vertices and 2 N M + 2 N faces for
  M > 0 retained non-degenerate segments. In the builder a capped segment receives both a
  start fan and an end fan, that is 2 apex vertices and 2 N faces, and the segments capped
  are the first and the last of the sampled list when they pass the tests of the loop. With
  c the number of capped segments the mesh has 2 N M + 2 c vertices and 2 N M + 2 N c faces.
\<close>

theorem mesh_sizing_law:
  "length (fst (create_cylindrical_extrusion_mesh segs layer_height extrusion_width)) =
     2 * num_sides * length (filter non_degenerate (slice_step step segs))
       + 2 * capped_segments (slice_step step segs)
   \<and> length (snd (create_cylindrical_extrusion_mesh segs layer_height extrusion_width)) =
     2 * num_sides * length (filter non_degenerate (slice_step step segs))
       + 2 * num_sides * capped_segments (slice_step step segs)"
  by (simp only: mesh_counts)

theorem mesh_sizing_law_witness:
  "length (fst (create_cylindrical_extrusion_mesh [unit_segment] 0.2 0.4)) = 18
   \<and> length (snd (create_cylindrical_extrusion_mesh [unit_segment] 0.2 0.4)) = 32"
  using mesh_sizing_law[of "[unit_segment]" "0.2" "0.4"]
  by (simp add: step_def non_degenerate_unit_segment capped_segments_def num_sides_def)

text \<open>
  With two retained segments both are capped: 36 vertices and 64 faces, where the claim
  gives 34 and 48.
\<close>

theorem two_segments_four_cap_fans:
  "length (filter non_degenerate (slice_step step [unit_segment, zero_segment, unit_segment])) = 2
   \<and> length (fst (create_cylindrical_extrusion_mesh [unit_segment, zero_segment, unit_segment] 0.2 0.4)) = 36
   \<and> length (snd (create_cylindrical_extrusion_mesh [unit_segment, zero_segment, unit_segment] 0.2 0.4)) = 64
   \<and> 36 \<noteq> 2 * num_sides * 2 + 2 \<and> 64 \<noteq> 2 * num_sides * 2 + 2 * num_sides"
  by (simp add: mesh_counts step_def non_degenerate_unit_segment capped_segments_def num_sides_def)

subsection \<open>Zero-length segments\<close>

lemma norm3_zero: "norm3 (vsub p p) = 0"
  by (cases p) (simp add: norm3_def vsub_def)

lemma process_segment_zero_length:
  "seg_start d = seg_end d \<Longrightarrow> process_segment n i d st = st"
  by (simp add: process_segment_def norm3_zero)

lemma process_segment_capped:
  "i = 0 \<or> i = n - 1 \<Longrightarrow> process_segment n i s st = process_segment 1 0 s st"
  by (auto simp: process_segment_def Let_def)

text \<open>
  Claim C5 (degenerate-segment idempotence): the claim says that a zero-length segment
  \<open>d\<close> beside a valid segment \<open>s\<close>, in either order, gives the mesh of \<open>s\<close> alone. The
  builder first keeps every second segment: of \<open>[s, d]\<close> it keeps \<open>s\<close> and the mesh is that of
  \<open>s\<close> alone, of \<open>[d, s]\<close> it keeps \<open>d\<close> and the mesh is empty. When both are kept, as in
  \<open>[s, x, d]\<close> and \<open>[d, x, s]\<close>, the mesh is that of \<open>s\<close> alone.
\<close>

theorem zero_length_segment_beside_valid:
  assumes "non_degenerate s" and "seg_start d = seg_end d"
  shows "create_cylindrical_extrusion_mesh [s, d] lh ew = create_cylindrical_extrusion_mesh [s] lh ew
    \<and> create_cylindrical_extrusion_mesh [d, s] lh ew = ([], [])
    \<and> create_cylindrical_extrusion_mesh [s, x, d] lh ew = create_cylindrical_extrusion_mesh [s] lh ew
    \<and> create_cylindrical_extrusion_mesh [d, x, s] lh ew = create_cylindrical_extrusion_mesh [s] lh ew"
proof -
  have a: "process_segment (Suc (Suc 0)) 0 s st = process_segment (Suc 0) 0 s st" for st
    using process_segment_capped[of 0 "Suc (Suc 0)" s st] by simp
  have b: "process_segment (Suc (Suc 0)) (Suc 0) s st = process_segment (Suc 0) 0 s st" for st
    using process_segment_capped[of "Suc 0" "Suc (Suc 0)" s st] by simp
  show ?thesis
    using assms(2)
    by (simp add: create_cylindrical_extrusion_mesh_def step_def Let_def
          process_segment_zero_length a b)
qed

theorem zero_length_segment_beside_valid_witness:
  "non_degenerate unit_segment \<and> seg_start zero_segment = seg_end zero_segment
   \<and> create_cylindrical_extrusion_mesh [unit_segment, zero_segment] 0.2 0.4 =
       create_cylindrical_extrusion_mesh [unit_segment] 0.2 0.4
   \<and> create_cylindrical_extrusion_mesh [zero_segment, unit_segment] 0.2 0.4 = ([], [])"
proof -
  have z: "seg_start zero_segment = seg_end zero_segment" by (simp add: zero_segment_def)
  from zero_length_segment_beside_valid[OF non_degenerate_unit_segment z, of "0.2" "0.4"]
    non_degenerate_unit_segment z
  show ?thesis by simp
qed

text \<open>
  The zero-length segment first: the valid segment is not sampled and the mesh is empty.
\<close>

theorem zero_length_segment_first_hides_valid:
  "non_degenerate unit_segment \<and> seg_start zero_segment = seg_end zero_segment
   \<and> create_cylindrical_extrusion_mesh [zero_segment, unit_segment] 0.2 0.4 = ([], [])
   \<and> length (fst (create_cylindrical_extrusion_mesh [unit_segment] 0.2 0.4)) = 18
   \<and> create_cylindrical_extrusion_mesh [zero_segment, unit_segment] 0.2 0.4 \<noteq>
       create_cylindrical_extrusion_mesh [unit_segment] 0.2 0.4"
proof -
  have z: "seg_start zero_segment = seg_end zero_segment" by (simp add: zero_segment_def)
  have e: "create_cylindrical_extrusion_mesh [zero_segment, unit_segment] 0.2 0.4 = ([], [])"
    using z by (simp add: create_cylindrical_extrusion_mesh_def step_def process_segment_zero_length)
  have l: "length (fst (create_cylindrical_extrusion_mesh [unit_segment] 0.2 0.4)) = 18"
    by (simp add: mesh_counts step_def non_degenerate_unit_segment capped_segments_def num_sides_def)
  from l have "fst (create_cylindrical_extrusion_mesh [unit_segment] 0.2 0.4) \<noteq> []" by auto
  then have "create_cylindrical_extrusion_mesh [zero_segment, unit_segment] 0.2 0.4 \<noteq>
       create_cylindrical_extrusion_mesh [unit_segment] 0.2 0.4"
    unfolding e by (metis fst_conv)
  with non_degenerate_unit_segment z e l show ?thesis by simp
qed

subsection \<open>Face indices\<close>

lemma next_j: "j < num_sides \<Longrightarrow> (j + 1) mod num_sides < num_sides \<and> (j + 1) mod num_sides \<noteq> j"
  unfolding num_sides_def by presburger

lemma side_faces_mem:
  assumes "f \<in> set (side_faces base)"
  obtains j nj where "j < num_sides" "nj < num_sides" "nj \<noteq> j"
    "f = (base + j, base + nj, base + num_sides + j) \<or>
     f = (base + nj, base + num_sides + nj, base + num_sides + j)"
proof -
  from assms obtain j where j: "j < num_sides"
    and f: "f = (base + j, base + (j + 1) mod num_sides, base + num_sides + j) \<or>
     f = (base + (j + 1) mod num_sides, base + num_sides + (j + 1) mod num_sides,
          base + num_sides + j)"
    by (auto simp: side_faces_def Let_def)
  from that[OF j _ _ f] next_j[OF j] show ?thesis by blast
qed

lemma start_cap_faces_mem:
  assumes "f \<in> set (start_cap_faces c base)"
  obtains j nj where "j < num_sides" "nj < num_sides" "nj \<noteq> j" "f = (c, base + nj, base + j)"
proof -
  from assms obtain j where j: "j < num_sides"
    and f: "f = (c, base + (j + 1) mod num_sides, base + j)"
    by (auto simp: start_cap_faces_def Let_def)
  from that[OF j _ _ f] next_j[OF j] show ?thesis by blast
qed

lemma end_cap_faces_mem:
  assumes "f \<in> set (end_cap_faces c base)"
  obtains j nj where "j < num_sides" "nj < num_sides" "nj \<noteq> j"
    "f = (c, base + num_sides + j, base + num_sides + nj)"
proof -
  from assms obtain j where j: "j < num_sides"
    and f: "f = (c, base + num_sides + j, base + num_sides + (j + 1) mod num_sides)"
    by (auto simp: end_cap_faces_def Let_def)
  from that[OF j _ _ f] next_j[OF j] show ?thesis by blast
qed

lemma side_faces_ok:
  assumes "f \<in> set (side_faces base)" and "base + 2 * num_sides \<le> length vs"
  shows "face_ok vs f"
proof -
  from assms(1) obtain j nj where "j < num_sides" "nj < num_sides" "nj \<noteq> j"
    "f = (base + j, base + nj, base + num_sides + j) \<or>
     f = (base + nj, base + num_sides + nj, base + num_sides + j)"
    by (rule side_faces_mem)
  with assms(2) show ?thesis by (auto simp: face_ok_def)
qed

lemma start_cap_faces_ok:
  assumes "f \<in> set (start_cap_faces c base)" and "base + 2 * num_sides \<le> c" and "c < length vs"
  shows "face_ok vs f"
proof -
  from assms(1) obtain j nj where "j < num_sides" "nj < num_sides" "nj \<noteq> j"
    "f = (c, base + nj, base + j)"
    by (rule start_cap_faces_mem)
  with assms(2,3) show ?thesis by (auto simp: face_ok_def)
qed

lemma end_cap_faces_ok:
  assumes "f \<in> set (end_cap_faces c base)" and "base + 2 * num_sides \<le> c" and "c < length vs"
  shows "face_ok vs f"
proof -
  from assms(1) obtain j nj where "j < num_sides" "nj < num_sides" "nj \<noteq> j"
    "f = (c, base + num_sides + j, base + num_sides + nj)"
    by (rule end_cap_faces_mem)
  with assms(2,3) show ?thesis by (auto simp: face_ok_def)
qed

lemma face_ok_longer: "face_ok vs f \<Longrightarrow> length vs \<le> length ws \<Longrightarrow> face_ok ws f"
  by (cases f) (auto simp: face_ok_def)

lemma add_tube_faces:
  "faces (add_tube seg st) = faces st @ side_faces (vertex_count st)"
  by (simp add: add_tube_def Let_def)

lemma add_caps_faces:
  "faces (add_caps seg b st) = faces st @ start_cap_faces (vertex_count st) b @
     end_cap_faces (vertex_count st + 1) b"
  by (simp add: add_caps_def Let_def)

lemma process_segment_inv:
  assumes vc: "vertex_count st = length (vertices st)"
    and ok: "\<forall>f\<in>set (faces st). face_ok (vertices st) f"
  shows "vertex_count (process_segment n i seg st) = length (vertices (process_segment n i seg st))"
    and "\<forall>f\<in>set (faces (process_segment n i seg st)).
           face_ok (vertices (process_segment n i seg st)) f"
proof -
  let ?st' = "process_segment n i seg st"
  let ?b = "length (vertices st)"
  have "vertex_count ?st' = length (vertices ?st') \<and>
        (\<forall>f\<in>set (faces ?st'). face_ok (vertices ?st') f)"
  proof (cases "non_degenerate seg")
    case False
    then show ?thesis using vc ok by (simp add: process_segment_skip)
  next
    case True
    let ?t = "add_tube seg st"
    have tl: "length (vertices ?t) = ?b + 2 * num_sides" by (simp add: add_tube_counts)
    have tc: "vertex_count ?t = ?b + 2 * num_sides" by (simp add: add_tube_counts vc)
    have tf: "faces ?t = faces st @ side_faces ?b" by (simp add: add_tube_faces vc)
    show ?thesis
    proof (cases "i = 0 \<or> i = n - 1")
      case False
      then have p: "?st' = ?t" using True by (simp add: process_segment_keep)
      have "face_ok (vertices ?t) f" if "f \<in> set (faces ?t)" for f
      proof -
        from that tf consider "f \<in> set (faces st)" | "f \<in> set (side_faces ?b)" by auto
        then show ?thesis
        proof cases
          case 1
          with ok have "face_ok (vertices st) f" by blast
          then show ?thesis by (rule face_ok_longer) (simp add: tl)
        next
          case 2
          then show ?thesis by (rule side_faces_ok) (simp add: tl)
        qed
      qed
      then show ?thesis by (simp add: p tl tc)
    next
      case c: True
      let ?c = "add_caps seg ?b ?t"
      from c have p: "?st' = ?c" using True by (simp add: process_segment_keep vc)
      have cl: "length (vertices ?c) = ?b + 2 * num_sides + 2"
        by (simp add: add_caps_counts tl)
      have cc: "vertex_count ?c = ?b + 2 * num_sides + 2"
        by (simp add: add_caps_counts tc)
      have cf: "faces ?c = faces st @ side_faces ?b @
          start_cap_faces (?b + 2 * num_sides) ?b @ end_cap_faces (?b + 2 * num_sides + 1) ?b"
        by (simp add: add_caps_faces tf tc)
      have "face_ok (vertices ?c) f" if "f \<in> set (faces ?c)" for f
      proof -
        from that cf consider "f \<in> set (faces st)" | "f \<in> set (side_faces ?b)"
          | "f \<in> set (start_cap_faces (?b + 2 * num_sides) ?b)"
          | "f \<in> set (end_cap_faces (?b + 2 * num_sides + 1) ?b)" by auto
        then show ?thesis
        proof cases
          case 1
          with ok have "face_ok (vertices st) f" by blast
          then show ?thesis by (rule face_ok_longer) (simp add: cl)
        next
          case 2
          then show ?thesis by (rule side_faces_ok) (simp add: cl)
        next
          case 3
          then show ?thesis by (rule start_cap_faces_ok) (simp_all add: cl)
        next
          case 4
          then show ?thesis by (rule end_cap_faces_ok) (simp_all add: cl)
        qed
      qed
      then show ?thesis by (simp add: p cl cc)
    qed
  qed
  then show "vertex_count ?st' = length (vertices ?st')"
    and "\<forall>f\<in>set (faces ?st'). face_ok (vertices ?st') f"
    by blast+
qed

lemma mesh_loop_inv:
  assumes "vertex_count st = length (vertices st)"
    and "\<forall>f\<in>set (faces st). face_ok (vertices st) f"
  shows "\<forall>f\<in>set (faces (mesh_loop n i segs st)). face_ok (vertices (mesh_loop n i segs st)) f"
  using assms
proof (induction segs arbitrary: i st)
  case Nil
  then show ?case by simp
next
  case (Cons seg rest)
  note inv = process_segment_inv[OF Cons.prems, of n i seg]
  from Cons.IH[OF inv] show ?case by simp
qed

lemma mesh_faces:
  assumes "f \<in> set (snd (create_cylindrical_extrusion_mesh segs lh ew))"
  shows "face_ok (fst (create_cylindrical_extrusion_mesh segs lh ew)) f"
proof -
  let ?st0 = "\<lparr>vertices = [], faces = [], vertex_count = 0\<rparr>"
  let ?ss = "slice_step step segs"
  have a: "vertex_count ?st0 = length (vertices ?st0)" by simp
  have b: "\<forall>f\<in>set (faces ?st0). face_ok (vertices ?st0) f" by simp
  from assms have f: "f \<in> set (faces (mesh_loop (length ?ss) 0 ?ss ?st0))"
    by (simp add: create_cylindrical_extrusion_mesh_def Let_def)
  from mesh_loop_inv[OF a b, of "length ?ss" 0 ?ss] f
  show ?thesis by (simp add: create_cylindrical_extrusion_mesh_def Let_def)
qed

lemma ring_offset_zero_radius: "ring_offset right up 0 j = (0, 0, 0)"
  by (cases right; cases up) (simp add: ring_offset_def Let_def vscale_def vadd_def)

lemma non_degenerate_flat_segment: "non_degenerate flat_segment"
  by (simp add: non_degenerate_def flat_segment_def norm3_def vsub_def isfinite_all_def isfinite_def)

lemma single_segment_mesh:
  "non_degenerate seg \<Longrightarrow>
   create_cylindrical_extrusion_mesh [seg] lh ew =
     (vertices (add_caps seg 0 (add_tube seg \<lparr>vertices = [], faces = [], vertex_count = 0\<rparr>)),
      faces (add_caps seg 0 (add_tube seg \<lparr>vertices = [], faces = [], vertex_count = 0\<rparr>)))"
  by (simp add: create_cylindrical_extrusion_mesh_def step_def Let_def process_segment_keep)

lemma start_cap_first: "(c, Suc b, b) \<in> set (start_cap_faces c b)"
  by (auto simp: start_cap_faces_def Let_def num_sides_def intro!: image_eqI[where x = 0])

lemma single_segment_cap_face:
  "non_degenerate seg \<Longrightarrow> (16, 1, 0) \<in> set (snd (create_cylindrical_extrusion_mesh [seg] lh ew))"
  using start_cap_first[of 16 0]
  by (simp add: single_segment_mesh add_caps_def add_tube_def Let_def num_sides_def)

text \<open>
  Claim C6 (mesh invariant): every index of every face is below the final vertex count, and
  no face has three coincident vertices because degenerate faces are filtered out. The builder
  has no filter: it appends every face it builds. What holds for every input is the index
  bound, and that the three indices of a face are pairwise distinct.
\<close>

theorem face_indices_in_range:
  assumes "(a, b, c) \<in> set (snd (create_cylindrical_extrusion_mesh segs lh ew))"
  shows "a < length (fst (create_cylindrical_extrusion_mesh segs lh ew))
       \<and> b < length (fst (create_cylindrical_extrusion_mesh segs lh ew))
       \<and> c < length (fst (create_cylindrical_extrusion_mesh segs lh ew))
       \<and> a \<noteq> b \<and> b \<noteq> c \<and> a \<noteq> c"
  using mesh_faces[OF assms] unfolding face_ok_def prod.case by blast

theorem face_indices_in_range_witness:
  "(16, 1, 0) \<in> set (snd (create_cylindrical_extrusion_mesh [unit_segment] 0.2 0.4))
   \<and> 16 < length (fst (create_cylindrical_extrusion_mesh [unit_segment] 0.2 0.4))
   \<and> 1 < length (fst (create_cylindrical_extrusion_mesh [unit_segment] 0.2 0.4))
   \<and> 0 < length (fst (create_cylindrical_extrusion_mesh [unit_segment] 0.2 0.4))"
proof -
  have m: "(16, 1, 0) \<in> set (snd (create_cylindrical_extrusion_mesh [unit_segment] 0.2 0.4))"
    by (rule single_segment_cap_face[OF non_degenerate_unit_segment])
  from face_indices_in_range[OF m] m show ?thesis by simp
qed

text \<open>
  A segment with height 0 has radius 0: its rings collapse to the end points, and the cap
  face (16, 1, 0) has the start point three times.
\<close>

theorem cap_faces_collapse_at_radius_zero:
  "(16, 1, 0) \<in> set (snd (create_cylindrical_extrusion_mesh [flat_segment] 0.2 0.4))
   \<and> fst (create_cylindrical_extrusion_mesh [flat_segment] 0.2 0.4) ! 16 = (0, 0, 0)
   \<and> fst (create_cylindrical_extrusion_mesh [flat_segment] 0.2 0.4) ! 1 = (0, 0, 0)
   \<and> fst (create_cylindrical_extrusion_mesh [flat_segment] 0.2 0.4) ! 0 = (0, 0, 0)"
proof -
  have m: "(16, 1, 0) \<in> set (snd (create_cylindrical_extrusion_mesh [flat_segment] 0.2 0.4))"
    by (rule single_segment_cap_face[OF non_degenerate_flat_segment])
  have r: "min (width flat_segment) (height flat_segment) / 2 = 0" by (simp add: flat_segment_def)
  have s: "seg_start flat_segment = (0, 0, 0)" by (simp add: flat_segment_def)
  have v: "fst (create_cylindrical_extrusion_mesh [flat_segment] 0.2 0.4) =
      replicate 8 (0, 0, 0) @ replicate 8 (1, 0, 0) @ [(0, 0, 0), (1, 0, 0)]"
    unfolding single_segment_mesh[OF non_degenerate_flat_segment] fst_conv
    by (simp add: add_caps_def add_tube_def Let_def r ring_offset_zero_radius num_sides_def
          map_replicate_const vadd_def flat_segment_def)
  show ?thesis using m unfolding v by (simp add: nth_append)
qed

end
